theory Spec2Isabelle
  imports Complex_Main
begin

section \<open>The analysis pipeline of whoosh (analysis.py)\<close>

text \<open>
  The module turns a string into a stream of tokens. Tokenizers are generator functions
  from a string to tokens, filters are generator functions from tokens to tokens, and
  analyzers are fixed compositions of one tokenizer with filters.

  Strings are Python 2 byte strings, modelled as \<open>string\<close>; integers are Python's
  unbounded integers, modelled as \<open>int\<close>.
\<close>

subsection \<open>Python values used by the module\<close>

datatype error = AttributeError

text \<open>
  A generator is modelled by its trace: the values it yields, in order, ended either by
  normal exhaustion (\<open>Done\<close>) or by the exception that escapes from it (\<open>Raise\<close>).
  The module yields one shared Token object over and over; a trace holds the state the
  object has at each yield. A trace is all there is to a generator that, once resumed,
  only writes to the token or reads what it wrote itself. CamelFilter reads the token
  after it is resumed, and so sees what its consumer wrote meanwhile: it is modelled
  further down by a generator that is handed the token again at each resumption.
\<close>

datatype 'a gen = Done | Raise error | Yield 'a "'a gen"

primrec stream :: "'a list \<Rightarrow> 'a gen" where
  "stream [] = Done"
| "stream (x # xs) = Yield x (stream xs)"

primrec yields :: "'a gen \<Rightarrow> 'a list" where
  "yields Done = []"
| "yields (Raise e) = []"
| "yields (Yield x g) = x # yields g"

primrec outcome :: "'a gen \<Rightarrow> error option" where
  "outcome Done = None"
| "outcome (Raise e) = Some e"
| "outcome (Yield x g) = outcome g"

text \<open>\<open>yield_all xs g\<close>: yield every element of \<open>xs\<close>, then go on as \<open>g\<close>.\<close>

primrec yield_all :: "'a list \<Rightarrow> 'a gen \<Rightarrow> 'a gen" where
  "yield_all [] g = g"
| "yield_all (x # xs) g = Yield x (yield_all xs g)"

text \<open>
  \<open>xrange(lo, hi)\<close>: the integers from \<open>lo\<close> up to \<open>hi - 1\<close>; empty when \<open>hi \<le> lo\<close>.
  (Python 2 raises OverflowError for bounds that do not fit a C long; sizes of that
  magnitude are left out.)
\<close>

definition xrange :: "int \<Rightarrow> int \<Rightarrow> int list" where
  "xrange lo hi = [lo..hi - 1]"



text \<open>\<open>a or b\<close> on an optional integer: \<open>None\<close> and \<open>0\<close> are false.\<close>

definition int_or :: "int option \<Rightarrow> int \<Rightarrow> int" where
  "int_or a b = (case a of None \<Rightarrow> b | Some v \<Rightarrow> if v = 0 then b else v)"

subsection \<open>Token\<close>

text \<open>
  The class declares its attributes in \<open>__slots__\<close> and \<open>__init__\<close> assigns only
  \<open>positions\<close>, \<open>chars\<close>, \<open>boosts\<close>, \<open>stopped\<close> and \<open>boost\<close>. The other five
  attributes are unset until a tokenizer assigns them (\<open>None\<close> here), and reading an unset
  attribute raises \<open>AttributeError\<close>. The attribute \<open>text\<close> is the field \<open>tok_text\<close>.
\<close>

record token =
  positions :: bool
  chars :: bool
  boosts :: bool
  original :: "string option"
  tok_text :: "string option"
  pos :: "int option"
  startchar :: "int option"
  endchar :: "int option"
  stopped :: bool
  boost :: real

definition Token :: "bool \<Rightarrow> bool \<Rightarrow> bool \<Rightarrow> token" where
  "Token positions' chars' boosts' =
     \<lparr>positions = positions', chars = chars', boosts = boosts',
      original = None, tok_text = None, pos = None, startchar = None, endchar = None,
      stopped = False, boost = 1\<rparr>"

text \<open>The character span of a token state, for a token whose offsets are set.\<close>

definition span :: "token \<Rightarrow> (int \<times> int) option" where
  "span t = (case startchar t of None \<Rightarrow> None
             | Some s \<Rightarrow> (case endchar t of None \<Rightarrow> None | Some e \<Rightarrow> Some (s, e)))"

subsection \<open>NgramTokenizer\<close>

text \<open>
  \<open>self.min\<close> and \<open>self.max\<close> of NgramTokenizer and of NgramFilter. The constructors
  have no raise statement; they return a sum so that a failing construction can be stated.
\<close>

record ngram =
  nmin :: int
  nmax :: int

definition NgramTokenizer_init :: "int \<Rightarrow> int option \<Rightarrow> error + ngram" where
  "NgramTokenizer_init minsize maxsize = Inr \<lparr>nmin = minsize, nmax = int_or maxsize minsize\<rparr>"

text \<open>
  The inner loop \<open>for size in xrange(self.min, self.max + 1)\<close> at one start offset. It
  takes the shared token and returns the token states it yields together with the token
  as the loop leaves it.
\<close>

fun ngram_sizes ::
  "int \<Rightarrow> bool \<Rightarrow> bool \<Rightarrow> int \<Rightarrow> int \<Rightarrow> int \<Rightarrow> token \<Rightarrow> int list \<Rightarrow> token list \<times> token" where
  "ngram_sizes inlen positions' chars' pos' start_char start t [] = ([], t)"
| "ngram_sizes inlen positions' chars' pos' start_char start t (size' # sizes) =
     (let end' = start + size' in
      if end' > inlen then ngram_sizes inlen positions' chars' pos' start_char start t sizes
      else
        let t1 = t\<lparr>stopped := False\<rparr>;
            t2 = (if positions' then t1\<lparr>pos := Some pos'\<rparr> else t1);
            t3 = (if chars' then t2\<lparr>startchar := Some (start_char + start),
                                     endchar := Some (start_char + end')\<rparr> else t2);
            r = ngram_sizes inlen positions' chars' pos' start_char start t3 sizes
        in (t3 # fst r, snd r))"

text \<open>The outer loop \<open>for start in xrange(0, inlen - self.min)\<close>, with \<open>pos += 1\<close>.\<close>

fun ngram_starts ::
  "ngram \<Rightarrow> int \<Rightarrow> bool \<Rightarrow> bool \<Rightarrow> int \<Rightarrow> int \<Rightarrow> token \<Rightarrow> int list \<Rightarrow> token list" where
  "ngram_starts self inlen positions' chars' pos' start_char t [] = []"
| "ngram_starts self inlen positions' chars' pos' start_char t (start # starts) =
     (let r = ngram_sizes inlen positions' chars' pos' start_char start t
                (xrange (nmin self) (nmax self + 1))
      in fst r @ ngram_starts self inlen positions' chars' (pos' + 1) start_char (snd r) starts)"

definition NgramTokenizer_call ::
  "ngram \<Rightarrow> string \<Rightarrow> bool \<Rightarrow> bool \<Rightarrow> int \<Rightarrow> int \<Rightarrow> token gen" where
  "NgramTokenizer_call self value' positions' chars' start_pos start_char =
     (let inlen = int (length value');
          t = Token positions' chars' False
      in stream (ngram_starts self inlen positions' chars' start_pos start_char t
                   (xrange 0 (inlen - nmin self))))"

subsection \<open>The pattern matcher\<close>

text \<open>
  The compiled expressions of the module are built from character classes, repetition
  of a class, sequence and alternation. \<open>One c\<close> is one character of the class,
  \<open>Many c\<close> is \<open>[c]*\<close>; \<open>[c]+\<close> is \<open>Seq (One c) (Many c)\<close>.

  \<open>rx_ends r s\<close> lists the lengths of the prefixes of \<open>s\<close> that \<open>r\<close> matches, in
  the order a backtracking matcher tries them: repetition is greedy and an alternation
  tries its left branch first. A match at a position is the first of them.
\<close>

datatype rx = One "char \<Rightarrow> bool" | Many "char \<Rightarrow> bool" | Seq rx rx | Alt rx rx

fun rx_ends :: "rx \<Rightarrow> string \<Rightarrow> nat list" where
  "rx_ends (One c) s = (case s of [] \<Rightarrow> [] | x # _ \<Rightarrow> if c x then [1] else [])"
| "rx_ends (Many c) s = rev [0..<Suc (length (takeWhile c s))]"
| "rx_ends (Seq a b) s = concat (map (\<lambda>n. map (\<lambda>m. n + m) (rx_ends b (drop n s))) (rx_ends a s))"
| "rx_ends (Alt a b) s = rx_ends a s @ rx_ends b s"

definition rx_match :: "rx \<Rightarrow> string \<Rightarrow> nat option" where
  "rx_match r s = (case rx_ends r s of [] \<Rightarrow> None | n # _ \<Rightarrow> Some n)"

text \<open>
  \<open>expression.finditer(value)\<close>: the spans \<open>(start, end)\<close> of the non-overlapping
  matches, scanning from the left. \<open>finditer_from r off s\<close> scans the rest \<open>s\<close> of the
  value, which starts at offset \<open>off\<close>. After an empty match the scan moves on by one
  character.
\<close>

fun finditer_from :: "rx \<Rightarrow> nat \<Rightarrow> string \<Rightarrow> (nat \<times> nat) list" where
  "finditer_from r off [] =
     (case rx_match r [] of None \<Rightarrow> [] | Some n \<Rightarrow> [(off, off + n)])"
| "finditer_from r off (x # s) =
     (case rx_match r (x # s) of
        None \<Rightarrow> finditer_from r (Suc off) s
      | Some n \<Rightarrow> (off, off + n) #
          (if n = 0 then finditer_from r (Suc off) s
           else finditer_from r (off + n) (drop n (x # s))))"

definition finditer :: "rx \<Rightarrow> string \<Rightarrow> (nat \<times> nat) list" where
  "finditer r v = finditer_from r 0 v"

text \<open>\<open>match.group(0)\<close> of the match with span \<open>(s, e)\<close>.\<close>

definition group0 :: "string \<Rightarrow> nat \<times> nat \<Rightarrow> string" where
  "group0 v m = take (snd m - fst m) (drop (fst m) v)"

text \<open>
  Character classes. The ranges \<open>[A-Z]\<close>, \<open>[a-z]\<close> and \<open>[0-9]\<close> of the expressions, and
  the methods \<open>lower()\<close>, \<open>islower()\<close>, \<open>isupper()\<close> and \<open>isdigit()\<close> of a byte string,
  are ASCII. \<open>\w\<close> is compiled with \<open>re.UNICODE\<close>: each byte counts as the code point of
  its number, so \<open>\w\<close> matches, besides ASCII letters, digits and the underscore, the
  letters and numbers of Latin-1 (\<open>0xAA\<close>, \<open>0xB2\<close>, \<open>0xB3\<close>, \<open>0xB5\<close>, \<open>0xB9\<close>, \<open>0xBA\<close>,
  \<open>0xBC\<close> to \<open>0xBE\<close>, \<open>0xC0\<close> to \<open>0xD6\<close>, \<open>0xD8\<close> to \<open>0xF6\<close>, \<open>0xF8\<close> to \<open>0xFF\<close>).
\<close>

definition is_upper :: "char \<Rightarrow> bool" where
  "is_upper c = (65 \<le> (of_char c :: nat) \<and> (of_char c :: nat) \<le> 90)"

definition is_lower :: "char \<Rightarrow> bool" where
  "is_lower c = (97 \<le> (of_char c :: nat) \<and> (of_char c :: nat) \<le> 122)"

definition is_digit :: "char \<Rightarrow> bool" where
  "is_digit c = (48 \<le> (of_char c :: nat) \<and> (of_char c :: nat) \<le> 57)"

definition is_latin1_alnum :: "char \<Rightarrow> bool" where
  "is_latin1_alnum c =
     (let n = (of_char c :: nat) in
      n = 170 \<or> n = 178 \<or> n = 179 \<or> n = 181 \<or> n = 185 \<or> n = 186 \<or>
      (188 \<le> n \<and> n \<le> 190) \<or> (192 \<le> n \<and> n \<le> 214) \<or>
      (216 \<le> n \<and> n \<le> 246) \<or> (248 \<le> n \<and> n \<le> 255))"

definition is_word :: "char \<Rightarrow> bool" where
  "is_word c =
     (is_upper c \<or> is_lower c \<or> is_digit c \<or> c = CHR ''_'' \<or> is_latin1_alnum c)"

text \<open>The whitespace of \<open>str.strip()\<close>: tab, newline, vertical tab, form feed, return, space.\<close>

definition is_space :: "char \<Rightarrow> bool" where
  "is_space c = ((9 \<le> (of_char c :: nat) \<and> (of_char c :: nat) \<le> 13) \<or> (of_char c :: nat) = 32)"

definition strip :: "string \<Rightarrow> string" where
  "strip s = rev (dropWhile is_space (rev (dropWhile is_space s)))"

definition lower_char :: "char \<Rightarrow> char" where
  "lower_char c = (if is_upper c then char_of ((of_char c :: nat) + 32) else c)"

definition lower :: "string \<Rightarrow> string" where
  "lower s = map lower_char s"

text \<open>
  \<open>str.islower()\<close>: there is a cased character and no cased character is upper case;
  \<open>str.isupper()\<close> likewise; \<open>str.isdigit()\<close>: the string is non-empty and all digits.
\<close>

definition islower :: "string \<Rightarrow> bool" where
  "islower s = (list_ex is_lower s \<and> \<not> list_ex is_upper s)"

definition isupper :: "string \<Rightarrow> bool" where
  "isupper s = (list_ex is_upper s \<and> \<not> list_ex is_lower s)"

definition isdigit :: "string \<Rightarrow> bool" where
  "isdigit s = (s \<noteq> [] \<and> list_all is_digit s)"

subsection \<open>IDTokenizer, RegexTokenizer and its subclasses\<close>

definition IDTokenizer :: "string \<Rightarrow> bool \<Rightarrow> bool \<Rightarrow> int \<Rightarrow> int \<Rightarrow> token gen" where
  "IDTokenizer value' positions' chars' start_pos start_char =
     (let t = Token positions' chars' False;
          t1 = t\<lparr>original := Some value', tok_text := Some value'\<rparr>;
          t2 = (if positions' then t1\<lparr>pos := Some (start_pos + 1)\<rparr> else t1);
          t3 = (if chars' then t2\<lparr>startchar := Some start_char,
                                   endchar := Some (start_char + int (length value'))\<rparr> else t2)
      in stream [t3])"

text \<open>
  The default expressions of the three classes: \<open>\w+\<close>, \<open>[^ \t\r\n]+\<close> and \<open>[^,]+\<close>.
\<close>

definition RegexTokenizer_default :: rx where
  "RegexTokenizer_default = Seq (One is_word) (Many is_word)"

definition not_blank :: "char \<Rightarrow> bool" where
  "not_blank c = (c \<notin> set [CHR '' '', CHR 0x09, CHR 0x0D, CHR 0x0A])"

definition SpaceSeparatedTokenizer_default :: rx where
  "SpaceSeparatedTokenizer_default = Seq (One not_blank) (Many not_blank)"

definition not_comma :: "char \<Rightarrow> bool" where
  "not_comma c = (c \<noteq> CHR '','')"

definition CommaSeparatedTokenizer_default :: rx where
  "CommaSeparatedTokenizer_default = Seq (One not_comma) (Many not_comma)"

text \<open>
  \<open>self.expression = expression or self._default_expression\<close>; a compiled expression
  is never false. A tokenizer object is its expression.
\<close>

definition RegexTokenizer_init :: "rx \<Rightarrow> rx option \<Rightarrow> rx" where
  "RegexTokenizer_init default' expression =
     (case expression of None \<Rightarrow> default' | Some e \<Rightarrow> e)"

text \<open>
  The loop \<open>for pos, match in enumerate(self.expression.finditer(value))\<close> on the shared
  token \<open>t\<close>. \<open>conv\<close> is what the class does to \<open>match.group(0)\<close>: nothing in
  RegexTokenizer, \<open>strip()\<close> in CommaSeparatedTokenizer.
\<close>

fun regex_matches ::
  "(string \<Rightarrow> string) \<Rightarrow> string \<Rightarrow> bool \<Rightarrow> bool \<Rightarrow> int \<Rightarrow> int \<Rightarrow> token \<Rightarrow>
   (nat \<times> nat \<times> nat) list \<Rightarrow> token list" where
  "regex_matches conv value' positions' chars' start_pos start_char t [] = []"
| "regex_matches conv value' positions' chars' start_pos start_char t ((pos', m) # ms) =
     (let t1 = t\<lparr>original := Some (conv (group0 value' m)),
                 tok_text := Some (conv (group0 value' m)), stopped := False\<rparr>;
          t2 = (if positions' then t1\<lparr>pos := Some (start_pos + int pos')\<rparr> else t1);
          t3 = (if chars' then t2\<lparr>startchar := Some (start_char + int (fst m)),
                                   endchar := Some (start_char + int (snd m))\<rparr> else t2)
      in t3 # regex_matches conv value' positions' chars' start_pos start_char t3 ms)"

definition RegexTokenizer_call ::
  "rx \<Rightarrow> string \<Rightarrow> bool \<Rightarrow> bool \<Rightarrow> int \<Rightarrow> int \<Rightarrow> token gen" where
  "RegexTokenizer_call expression value' positions' chars' start_pos start_char =
     stream (regex_matches (\<lambda>s. s) value' positions' chars' start_pos start_char
               (Token positions' chars' False) (enumerate 0 (finditer expression value')))"

definition CommaSeparatedTokenizer_call ::
  "rx \<Rightarrow> string \<Rightarrow> bool \<Rightarrow> bool \<Rightarrow> int \<Rightarrow> int \<Rightarrow> token gen" where
  "CommaSeparatedTokenizer_call expression value' positions' chars' start_pos start_char =
     stream (regex_matches strip value' positions' chars' start_pos start_char
               (Token positions' chars' False) (enumerate 0 (finditer expression value')))"

subsection \<open>Filters\<close>

primrec PassFilter :: "token gen \<Rightarrow> token gen" where
  "PassFilter Done = Done"
| "PassFilter (Raise e) = Raise e"
| "PassFilter (Yield t tokens) = Yield t (PassFilter tokens)"

primrec LowerCaseFilter :: "token gen \<Rightarrow> token gen" where
  "LowerCaseFilter Done = Done"
| "LowerCaseFilter (Raise e) = Raise e"
| "LowerCaseFilter (Yield t tokens) =
     (case tok_text t of
        None \<Rightarrow> Raise AttributeError
      | Some text' \<Rightarrow> Yield (t\<lparr>tok_text := Some (lower text')\<rparr>) (LowerCaseFilter tokens))"

text \<open>StopFilter: \<open>self.stops\<close> is a frozenset, \<open>self.min\<close> the minimum length.\<close>

record stopfilter =
  stops :: "string set"
  smin :: int

definition STOP_WORDS :: "string list" where
  "STOP_WORDS = [''the'', ''to'', ''of'', ''a'', ''and'', ''is'', ''in'', ''this'',
                 ''you'', ''for'', ''be'', ''on'', ''or'', ''will'', ''if'', ''can'', ''are'',
                 ''that'', ''by'', ''with'', ''it'', ''as'', ''from'', ''an'', ''when'',
                 ''not'', ''may'', ''tbd'', ''yet'']"

text \<open>
  \<open>StopFilter(stoplist, minsize)\<close>. The defaults of the two parameters are
  \<open>Some STOP_WORDS\<close> and \<open>2\<close>; \<open>stoplist = None\<close> gives the empty set.
\<close>

definition StopFilter_init :: "string list option \<Rightarrow> int \<Rightarrow> stopfilter" where
  "StopFilter_init stoplist minsize =
     \<lparr>stops = (case stoplist of None \<Rightarrow> {} | Some l \<Rightarrow> set l), smin = minsize\<rparr>"

primrec StopFilter_call :: "stopfilter \<Rightarrow> token gen \<Rightarrow> token gen" where
  "StopFilter_call self Done = Done"
| "StopFilter_call self (Raise e) = Raise e"
| "StopFilter_call self (Yield t tokens) =
     (case tok_text t of
        None \<Rightarrow> Raise AttributeError
      | Some text' \<Rightarrow>
          if int (length text') \<ge> smin self \<and> text' \<notin> stops self
          then Yield t (StopFilter_call self tokens)
          else StopFilter_call self tokens)"





text \<open>
  StemFilter. \<open>stem\<close> is the Porter stemmer of \<open>whoosh.lang.porter\<close>, a function from
  words to words that the filter takes as given. The filter owns a cache, a dictionary
  that the generator updates as it runs: the model returns the trace together with the
  cache as it is when the generator has run to its end. The last branch of the loop
  yields the stem itself, a string, so what the filter yields is a token or a string.
\<close>

datatype item = Tok token | Str string

record stemfilter =
  cache :: "string \<rightharpoonup> string"
  ignores :: "string set"

definition StemFilter_init :: "string list option \<Rightarrow> stemfilter" where
  "StemFilter_init ignore =
     \<lparr>cache = Map.empty, ignores = (case ignore of None \<Rightarrow> {} | Some l \<Rightarrow> set l)\<rparr>"

definition StemFilter_clear :: "stemfilter \<Rightarrow> stemfilter" where
  "StemFilter_clear self = self\<lparr>cache := Map.empty\<rparr>"

fun stem_tokens ::
  "(string \<Rightarrow> string) \<Rightarrow> string set \<Rightarrow> (string \<rightharpoonup> string) \<Rightarrow> token gen \<Rightarrow>
   item gen \<times> (string \<rightharpoonup> string)" where
  "stem_tokens stem ignores' cache' Done = (Done, cache')"
| "stem_tokens stem ignores' cache' (Raise e) = (Raise e, cache')"
| "stem_tokens stem ignores' cache' (Yield t tokens) =
     (if stopped t then
        let r = stem_tokens stem ignores' cache' tokens in (Yield (Tok t) (fst r), snd r)
      else
        case tok_text t of
          None \<Rightarrow> (Raise AttributeError, cache')
        | Some text' \<Rightarrow>
            if text' \<in> ignores' then
              let r = stem_tokens stem ignores' cache' tokens in (Yield (Tok t) (fst r), snd r)
            else
              (case cache' text' of
                 Some c \<Rightarrow>
                   let r = stem_tokens stem ignores' cache' tokens
                   in (Yield (Tok (t\<lparr>tok_text := Some c\<rparr>)) (fst r), snd r)
               | None \<Rightarrow>
                   let s = stem text';
                       r = stem_tokens stem ignores' (cache'(text' \<mapsto> s)) tokens
                   in (Yield (Str s) (fst r), snd r)))"

definition StemFilter_call ::
  "(string \<Rightarrow> string) \<Rightarrow> stemfilter \<Rightarrow> token gen \<Rightarrow> item gen \<times> stemfilter" where
  "StemFilter_call stem self tokens =
     (let r = stem_tokens stem (ignores self) (cache self) tokens
      in (fst r, self\<lparr>cache := snd r\<rparr>))"

subsection \<open>CamelFilter: a generator that reads the token after it is resumed\<close>

text \<open>
  CamelFilter does \<open>yield t\<close> and only then reads \<open>t.text\<close>, \<open>t.chars\<close> and
  \<open>t.startchar\<close>. Between the yield and the resumption the consumer, an outer filter for
  instance, holds the same Token object and may have written to it. A generator that
  shares the token with its consumer is therefore either exhausted, or ended by an
  exception, or suspended at a \<open>yield\<close> with the token in some state, together with how
  it goes on once it is resumed with the token in the state the consumer left.
\<close>

datatype shared_gen = SDone | SRaise error | SYield token "token \<Rightarrow> shared_gen"

text \<open>
  The last consumer of a pipeline: it pulls until the generator ends, and between two
  pulls it does \<open>w\<close> to the token (\<open>\<lambda>t. t\<close> for a consumer that only reads). What it
  gets is a trace.
\<close>

primrec consume :: "(token \<Rightarrow> token) \<Rightarrow> shared_gen \<Rightarrow> token gen" where
  "consume w SDone = Done"
| "consume w (SRaise e) = Raise e"
| "consume w (SYield t resume) = Yield t (consume w (resume (w t)))"

text \<open>
  RegexTokenizer and LowerCaseFilter once more, as generators that share the token:
  the same loops, writing to the token as they find it at each resumption. They are the
  stages around CamelFilter in a pipeline.
\<close>

fun regex_matches_shared ::
  "(string \<Rightarrow> string) \<Rightarrow> string \<Rightarrow> bool \<Rightarrow> bool \<Rightarrow> int \<Rightarrow> int \<Rightarrow>
   (nat \<times> nat \<times> nat) list \<Rightarrow> token \<Rightarrow> shared_gen" where
  "regex_matches_shared conv value' positions' chars' start_pos start_char [] t = SDone"
| "regex_matches_shared conv value' positions' chars' start_pos start_char ((pos', m) # ms) t =
     (let t1 = t\<lparr>original := Some (conv (group0 value' m)),
                 tok_text := Some (conv (group0 value' m)), stopped := False\<rparr>;
          t2 = (if positions' then t1\<lparr>pos := Some (start_pos + int pos')\<rparr> else t1);
          t3 = (if chars' then t2\<lparr>startchar := Some (start_char + int (fst m)),
                                   endchar := Some (start_char + int (snd m))\<rparr> else t2)
      in SYield t3 (regex_matches_shared conv value' positions' chars' start_pos start_char ms))"

definition RegexTokenizer_shared ::
  "rx \<Rightarrow> string \<Rightarrow> bool \<Rightarrow> bool \<Rightarrow> int \<Rightarrow> int \<Rightarrow> shared_gen" where
  "RegexTokenizer_shared expression value' positions' chars' start_pos start_char =
     regex_matches_shared (\<lambda>s. s) value' positions' chars' start_pos start_char
       (enumerate 0 (finditer expression value')) (Token positions' chars' False)"

primrec LowerCaseFilter_shared :: "shared_gen \<Rightarrow> shared_gen" where
  "LowerCaseFilter_shared SDone = SDone"
| "LowerCaseFilter_shared (SRaise e) = SRaise e"
| "LowerCaseFilter_shared (SYield t tokens) =
     (case tok_text t of
        None \<Rightarrow> SRaise AttributeError
      | Some text' \<Rightarrow>
          SYield (t\<lparr>tok_text := Some (lower text')\<rparr>)
            (\<lambda>t'. LowerCaseFilter_shared (tokens t')))"

text \<open>
  \<open>_camel_exp\<close> is \<open>[A-Z][a-z]*|[a-z]+|[0-9]+\<close>. The loop over the matches writes to the
  token as it finds it; \<open>text\<close> and \<open>oldstart\<close> are local variables, read once.
  \<open>oldstart\<close> is bound exactly when \<open>t.chars\<close> is true, so it is an option here and
  stands for both. \<open>rest\<close> is what follows the loop: the next round of the filter's
  \<open>for t in tokens\<close>, which resumes the incoming generator.
\<close>

definition camel_exp :: rx where
  "camel_exp = Alt (Seq (One is_upper) (Many is_lower))
                 (Alt (Seq (One is_lower) (Many is_lower)) (Seq (One is_digit) (Many is_digit)))"

fun camel_matches ::
  "string \<Rightarrow> int option \<Rightarrow> (nat \<times> nat) list \<Rightarrow> (token \<Rightarrow> shared_gen) \<Rightarrow> token \<Rightarrow>
   shared_gen" where
  "camel_matches text' oldstart [] rest t = rest t"
| "camel_matches text' oldstart (m # ms) rest t =
     (let sub = group0 text' m in
      if sub \<noteq> text' then
        let t1 = t\<lparr>tok_text := Some sub\<rparr>;
            t2 = (case oldstart of
                    None \<Rightarrow> t1
                  | Some s \<Rightarrow> t1\<lparr>startchar := Some (s + int (fst m)),
                                  endchar := Some (s + int (snd m))\<rparr>)
        in SYield t2 (camel_matches text' oldstart ms rest)
      else camel_matches text' oldstart ms rest t)"

text \<open>
  The filter yields the incoming token as it is. \<open>t'\<close> is the token when the filter is
  resumed: the code reads \<open>t.text\<close>, \<open>t.chars\<close> and \<open>t.startchar\<close> from it.
\<close>

primrec CamelFilter :: "shared_gen \<Rightarrow> shared_gen" where
  "CamelFilter SDone = SDone"
| "CamelFilter (SRaise e) = SRaise e"
| "CamelFilter (SYield t tokens) =
     SYield t
       (\<lambda>t'. case tok_text t' of
          None \<Rightarrow> SRaise AttributeError
        | Some text' \<Rightarrow>
            if text' \<noteq> [] \<and> \<not> islower text' \<and> \<not> isupper text' \<and> \<not> isdigit text' then
              if chars t' then
                (case startchar t' of
                   None \<Rightarrow> SRaise AttributeError
                 | Some oldstart \<Rightarrow>
                     camel_matches text' (Some oldstart) (finditer camel_exp text')
                       (\<lambda>t''. CamelFilter (tokens t'')) t')
              else camel_matches text' None (finditer camel_exp text')
                     (\<lambda>t''. CamelFilter (tokens t'')) t'
            else CamelFilter (tokens t'))"

subsection \<open>StandardAnalyzer\<close>

text \<open>
  \<open>self.stopper\<close> is the function PassFilter or a StopFilter object. The keyword
  arguments of the call go to the tokenizer unchanged.
\<close>

datatype stopper = PassStopper | StopStopper stopfilter

record standard_analyzer =
  tokenizer :: rx
  stopper :: stopper

definition StandardAnalyzer_init :: "string list option \<Rightarrow> int \<Rightarrow> standard_analyzer" where
  "StandardAnalyzer_init stoplist minsize =
     \<lparr>tokenizer = RegexTokenizer_init RegexTokenizer_default None,
      stopper = (case stoplist of
                   None \<Rightarrow> PassStopper
                 | Some l \<Rightarrow> StopStopper (StopFilter_init (Some l) minsize))\<rparr>"

fun stopper_call :: "stopper \<Rightarrow> token gen \<Rightarrow> token gen" where
  "stopper_call PassStopper tokens = PassFilter tokens"
| "stopper_call (StopStopper self) tokens = StopFilter_call self tokens"

definition StandardAnalyzer_call ::
  "standard_analyzer \<Rightarrow> string \<Rightarrow> bool \<Rightarrow> bool \<Rightarrow> int \<Rightarrow> int \<Rightarrow> token gen" where
  "StandardAnalyzer_call self value' positions' chars' start_pos start_char =
     stopper_call (stopper self)
       (LowerCaseFilter
          (RegexTokenizer_call (tokenizer self) value' positions' chars' start_pos start_char))"

subsection \<open>Character spans of a stream\<close>

text \<open>
  The vocabulary of the statements about character offsets. \<open>spans g\<close> lists the
  \<open>(startchar, endchar)\<close> pairs of the tokens \<open>g\<close> yields, and \<open>all_spanned g\<close> says
  that each of them has both offsets. A list of spans lies within \<open>[lo, hi]\<close> when every
  span is a substring of that range; its starts are non-decreasing when the list is
  sorted by start; it is non-overlapping when every span ends no later than each span
  after it starts.
\<close>

definition spans :: "token gen \<Rightarrow> (int \<times> int) list" where
  "spans g = List.map_filter span (yields g)"

definition all_spanned :: "token gen \<Rightarrow> bool" where
  "all_spanned g = list_all (\<lambda>u. span u \<noteq> None) (yields g)"

definition spans_within :: "int \<Rightarrow> int \<Rightarrow> (int \<times> int) list \<Rightarrow> bool" where
  "spans_within lo hi sp = list_all (\<lambda>m. lo \<le> fst m \<and> fst m \<le> snd m \<and> snd m \<le> hi) sp"

definition starts_nondecreasing :: "(int \<times> int) list \<Rightarrow> bool" where
  "starts_nondecreasing sp = sorted (map fst sp)"

definition nonoverlapping :: "(int \<times> int) list \<Rightarrow> bool" where
  "nonoverlapping sp = sorted_wrt (\<lambda>a b. snd a \<le> fst b) sp"

text \<open>
  Notation for the proofs about NgramTokenizer: the spans its two loops produce over a
  list of start offsets.
\<close>

abbreviation grams :: "ngram \<Rightarrow> int \<Rightarrow> int \<Rightarrow> int list \<Rightarrow> (int \<times> int) list" where
  "grams self inlen start_char starts \<equiv>
     concat (map (\<lambda>start. map (\<lambda>size'. (start_char + start, start_char + (start + size')))
                     (filter (\<lambda>size'. start + size' \<le> inlen)
                        (xrange (nmin self) (nmax self + 1))))
               starts)"

section \<open>Properties\<close>

subsection \<open>Generators\<close>

lemma yields_stream [simp]: "yields (stream xs) = xs"
  by (induction xs) simp_all

lemma outcome_stream [simp]: "outcome (stream xs) = None"
  by (induction xs) simp_all

subsection \<open>NgramTokenizer: the text of the grams\<close>

text \<open>
  Neither loop of NgramTokenizer assigns \<open>text\<close> or \<open>original\<close>: both keep the value
  they have in the token the loop starts from.
\<close>

lemma ngram_sizes_text:
  "tok_text (snd (ngram_sizes inlen p c ps sc st t sizes)) = tok_text t \<and>
   original (snd (ngram_sizes inlen p c ps sc st t sizes)) = original t \<and>
   map (\<lambda>u. (tok_text u, original u)) (fst (ngram_sizes inlen p c ps sc st t sizes)) =
     map (\<lambda>u. (tok_text t, original t)) (fst (ngram_sizes inlen p c ps sc st t sizes))"
  by (induction sizes arbitrary: t) (simp_all add: Let_def)

lemma ngram_starts_text:
  "map (\<lambda>u. (tok_text u, original u)) (ngram_starts self inlen p c ps sc t starts) =
     map (\<lambda>u. (tok_text t, original t)) (ngram_starts self inlen p c ps sc t starts)"
  by (induction starts arbitrary: t ps) (simp_all add: Let_def ngram_sizes_text)

text \<open>
  C1 (the code departs from the claim). The claim gives every token of the n-gram
  tokenizer the text \<open>value[i : i+s]\<close>. In the code every token the tokenizer yields,
  for every configuration, input and flags, has \<open>text\<close> and \<open>original\<close> unset: reading
  \<open>t.text\<close> raises AttributeError. At \<open>NgramTokenizer(2)("abc")\<close> the one token yielded
  has the span \<open>(0, 2)\<close> and position 0 that the claim states, and no text where the
  claim states \<open>"ab"\<close>.
\<close>

theorem NgramTokenizer_text_unset:
  "map (\<lambda>u. (tok_text u, original u))
     (yields (NgramTokenizer_call self value' positions' chars' start_pos start_char)) =
   map (\<lambda>u. (None, None))
     (yields (NgramTokenizer_call self value' positions' chars' start_pos start_char)) \<and>
   map (\<lambda>u. (tok_text u, pos u, span u))
     (yields (NgramTokenizer_call \<lparr>nmin = 2, nmax = 2\<rparr> ''abc'' True True 0 0)) =
   [(None, Some 0, Some (0, 2))]"
proof
  show "map (\<lambda>u. (tok_text u, original u))
     (yields (NgramTokenizer_call self value' positions' chars' start_pos start_char)) =
   map (\<lambda>u. (None, None))
     (yields (NgramTokenizer_call self value' positions' chars' start_pos start_char))"
    unfolding NgramTokenizer_call_def Let_def yields_stream
    by (subst ngram_starts_text) (simp add: Token_def)
  show "map (\<lambda>u. (tok_text u, pos u, span u))
     (yields (NgramTokenizer_call \<lparr>nmin = 2, nmax = 2\<rparr> ''abc'' True True 0 0)) =
   [(None, Some 0, Some (0, 2))]"
    by (simp add: NgramTokenizer_call_def xrange_def upto.simps Let_def Token_def span_def)
qed

text \<open>
  C2 (the code departs from the claim). \<open>NgramTokenizer(3, 4)("hello")\<close> yields four
  tokens, not five: the outer loop runs over \<open>xrange(0, inlen - self.min)\<close>, the start
  offsets 0 and 1, so the gram at offset 2, \<open>"llo"\<close>, is never reached. The four tokens
  span \<open>"hel"\<close>, \<open>"hell"\<close>, \<open>"ell"\<close> and \<open>"ello"\<close>, and none of them has a text.
\<close>

theorem NgramTokenizer_hello:
  "NgramTokenizer_init 3 (Some 4) = Inr \<lparr>nmin = 3, nmax = 4\<rparr> \<and>
   map (\<lambda>u. (tok_text u, span u))
     (yields (NgramTokenizer_call \<lparr>nmin = 3, nmax = 4\<rparr> ''hello'' False True 0 0)) =
   [(None, Some (0, 3)), (None, Some (0, 4)), (None, Some (1, 4)), (None, Some (1, 5))] \<and>
   outcome (NgramTokenizer_call \<lparr>nmin = 3, nmax = 4\<rparr> ''hello'' False True 0 0) = None"
  by (simp add: NgramTokenizer_init_def int_or_def NgramTokenizer_call_def xrange_def
        upto.simps Let_def Token_def span_def)

subsection \<open>StemFilter: what a cache miss yields\<close>

text \<open>
  C3 (the code departs from the claim). The claim has the stem filter emit the token,
  with its text replaced by the stem, in each of its branches. In the code the branch
  for a word that is neither ignored nor cached ends in \<open>yield s\<close>: it stores the stem
  in the cache and in \<open>t.text\<close>, and then yields the stem, a string, in place of the
  token. The branch for a cached word yields the token.
\<close>

theorem StemFilter_miss_yields_string:
  assumes "\<not> stopped t" and "tok_text t = Some w"
    and "w \<notin> ignores self" and "cache self w = None"
  shows "StemFilter_call stem self (Yield t tokens) =
           (Yield (Str (stem w))
              (fst (StemFilter_call stem (self\<lparr>cache := (cache self)(w \<mapsto> stem w)\<rparr>) tokens)),
            snd (StemFilter_call stem (self\<lparr>cache := (cache self)(w \<mapsto> stem w)\<rparr>) tokens))"
  using assms by (simp add: StemFilter_call_def Let_def)

text \<open>
  With \<open>butlast\<close> standing for the stemmer, a fresh filter on the two tokens of
  \<open>"cats cats"\<close> yields the string \<open>"cat"\<close> for the first (a miss) and the token with
  text \<open>"cat"\<close> for the second (a hit).
\<close>

theorem StemFilter_miss_yields_string_witness:
  "fst (StemFilter_call butlast (StemFilter_init None)
          (RegexTokenizer_call RegexTokenizer_default ''cats cats'' False False 0 0)) =
     Yield (Str ''cat'')
       (Yield (Tok ((Token False False False)
                 \<lparr>original := Some ''cats'', tok_text := Some ''cat''\<rparr>)) Done) \<and>
   cache (snd (StemFilter_call butlast (StemFilter_init None)
          (RegexTokenizer_call RegexTokenizer_default ''cats cats'' False False 0 0)))
     ''cats'' = Some ''cat''"
proof -
  let ?t = "(Token False False False)\<lparr>original := Some ''cats'', tok_text := Some ''cats''\<rparr>"
  have tk: "RegexTokenizer_call RegexTokenizer_default ''cats cats'' False False 0 0 =
        Yield ?t (Yield ?t Done)"
    by code_simp
  have a: "\<not> stopped ?t" "tok_text ?t = Some ''cats''"
    "''cats'' \<notin> ignores (StemFilter_init None)" "cache (StemFilter_init None) ''cats'' = None"
    by (simp_all add: Token_def StemFilter_init_def)
  show ?thesis
    unfolding tk StemFilter_miss_yields_string [OF a]
    by (simp add: StemFilter_call_def StemFilter_init_def Token_def Let_def)
qed

subsection \<open>N-gram components with maxsize below minsize\<close>








subsection \<open>LowerCaseFilter\<close>

lemma lower_char_idem: "lower_char (lower_char c) = lower_char c"
  by (simp add: lower_char_def is_upper_def)

lemma lower_idem: "lower (lower s) = lower s"
  by (simp add: lower_def lower_char_idem)

text \<open>
  C9. The lowercase filter is idempotent: applied twice to a token stream it yields the
  same token states, and so the same texts, as applied once, and it ends the same way.
\<close>

theorem LowerCaseFilter_idempotent:
  "LowerCaseFilter (LowerCaseFilter tokens) = LowerCaseFilter tokens"
  by (induction tokens) (simp_all add: lower_idem split: option.splits)

subsection \<open>StopFilter\<close>

lemma StopFilter_yields:
  "yields (StopFilter_call self tokens) =
     filter (\<lambda>t. case tok_text t of None \<Rightarrow> False
                 | Some w \<Rightarrow> \<not> (int (length w) < smin self \<or> w \<in> stops self))
       (takeWhile (\<lambda>t. tok_text t \<noteq> None) (yields tokens))"
  by (induction tokens) (auto split: option.splits)

lemma StopFilter_outcome:
  "outcome (StopFilter_call self tokens) =
     (if list_all (\<lambda>t. tok_text t \<noteq> None) (yields tokens) then outcome tokens
      else Some AttributeError)"
  by (induction tokens) (auto split: option.splits)

lemma StopFilter_default_words:
  "filter (\<lambda>t. tok_text t \<in> {Some ''the'', Some ''a'', Some ''is''})
     (yields (StopFilter_call (StopFilter_init (Some STOP_WORDS) 2) tokens)) = []"
  unfolding StopFilter_yields filter_filter
  by (auto simp add: StopFilter_init_def STOP_WORDS_def filter_empty_conv split: option.splits)

lemma StopFilter_default_example:
  "map tok_text (yields (StopFilter_call (StopFilter_init (Some STOP_WORDS) 2)
     (RegexTokenizer_call RegexTokenizer_default ''the quick fox is a friend''
        False False 0 0))) =
   [Some ''quick'', Some ''fox'', Some ''friend'']"
  by code_simp

text \<open>
  C8. The tokens the stop filter yields are the incoming tokens, unchanged and in their
  order, without those whose text is shorter than the minimum or is in the word set. (The
  incoming stream counts up to its first token without a text, if it has one: there the
  filter ends with AttributeError; otherwise it ends as the incoming stream does.) With
  the default word list and minimum 2, no token with text \<open>"the"\<close>, \<open>"a"\<close> or \<open>"is"\<close>
  is left in any stream, and of \<open>the quick fox is a friend\<close> the filter keeps
  \<open>quick\<close>, \<open>fox\<close>, \<open>friend\<close>.
\<close>

theorem StopFilter_drops_exactly:
  "yields (StopFilter_call self tokens) =
     filter (\<lambda>t. case tok_text t of None \<Rightarrow> False
                 | Some w \<Rightarrow> \<not> (int (length w) < smin self \<or> w \<in> stops self))
       (takeWhile (\<lambda>t. tok_text t \<noteq> None) (yields tokens)) \<and>
   outcome (StopFilter_call self tokens) =
     (if list_all (\<lambda>t. tok_text t \<noteq> None) (yields tokens) then outcome tokens
      else Some AttributeError) \<and>
   filter (\<lambda>t. tok_text t \<in> {Some ''the'', Some ''a'', Some ''is''})
     (yields (StopFilter_call (StopFilter_init (Some STOP_WORDS) 2) tokens)) = [] \<and>
   map tok_text (yields (StopFilter_call (StopFilter_init (Some STOP_WORDS) 2)
     (RegexTokenizer_call RegexTokenizer_default ''the quick fox is a friend''
        False False 0 0))) =
   [Some ''quick'', Some ''fox'', Some ''friend'']"
  using StopFilter_yields StopFilter_outcome StopFilter_default_words
    StopFilter_default_example
  by blast

subsection \<open>StandardAnalyzer\<close>

lemma PassFilter_id: "PassFilter tokens = tokens"
  by (induction tokens) simp_all

lemma StandardAnalyzer_example:
  "map tok_text (yields (StandardAnalyzer_call (StandardAnalyzer_init (Some STOP_WORDS) 2)
      ''The Quick Fox JUMPS'' p c sp sc)) = [Some ''quick'', Some ''fox'', Some ''jumps''] \<and>
   outcome (StandardAnalyzer_call (StandardAnalyzer_init (Some STOP_WORDS) 2)
      ''The Quick Fox JUMPS'' p c sp sc) = None"
proof -
  let ?a = "StandardAnalyzer_init (Some STOP_WORDS) 2"
  let ?r = "[Some ''quick'', Some ''fox'', Some ''jumps'']"
  have l:
    "\<And>sp sc. map tok_text (yields (StandardAnalyzer_call ?a ''The Quick Fox JUMPS''
        True True sp sc)) = ?r"
    "\<And>sp sc. map tok_text (yields (StandardAnalyzer_call ?a ''The Quick Fox JUMPS''
        True False sp sc)) = ?r"
    "\<And>sp sc. map tok_text (yields (StandardAnalyzer_call ?a ''The Quick Fox JUMPS''
        False True sp sc)) = ?r"
    "\<And>sp sc. map tok_text (yields (StandardAnalyzer_call ?a ''The Quick Fox JUMPS''
        False False sp sc)) = ?r"
    by code_simp+
  have o:
    "\<And>sp sc. outcome (StandardAnalyzer_call ?a ''The Quick Fox JUMPS'' True True sp sc) = None"
    "\<And>sp sc. outcome (StandardAnalyzer_call ?a ''The Quick Fox JUMPS'' True False sp sc) = None"
    "\<And>sp sc. outcome (StandardAnalyzer_call ?a ''The Quick Fox JUMPS'' False True sp sc) = None"
    "\<And>sp sc. outcome (StandardAnalyzer_call ?a ''The Quick Fox JUMPS'' False False sp sc) = None"
    by code_simp+
  show ?thesis by (cases p; cases c) (simp_all add: l o)
qed

text \<open>
  C6. The standard analyzer is the pattern tokenizer with its default expression, then
  the lowercase filter, then the stop filter built from the analyzer's stop list and
  minimum size; with the stop list \<open>None\<close> the last stage is the pass filter, which
  changes nothing. With the default stop list and minimum, \<open>The Quick Fox JUMPS\<close>
  gives the texts \<open>quick\<close>, \<open>fox\<close>, \<open>jumps\<close>, whatever the flags and offsets.
\<close>

theorem StandardAnalyzer_pipeline:
  "StandardAnalyzer_call (StandardAnalyzer_init (Some stoplist) minsize)
      value' positions' chars' start_pos start_char =
     StopFilter_call (StopFilter_init (Some stoplist) minsize)
       (LowerCaseFilter (RegexTokenizer_call RegexTokenizer_default
          value' positions' chars' start_pos start_char)) \<and>
   StandardAnalyzer_call (StandardAnalyzer_init None minsize)
      value' positions' chars' start_pos start_char =
     PassFilter (LowerCaseFilter (RegexTokenizer_call RegexTokenizer_default
          value' positions' chars' start_pos start_char)) \<and>
   PassFilter tokens = tokens \<and>
   map tok_text (yields (StandardAnalyzer_call (StandardAnalyzer_init (Some STOP_WORDS) 2)
      ''The Quick Fox JUMPS'' positions' chars' start_pos start_char)) =
     [Some ''quick'', Some ''fox'', Some ''jumps''] \<and>
   outcome (StandardAnalyzer_call (StandardAnalyzer_init (Some STOP_WORDS) 2)
      ''The Quick Fox JUMPS'' positions' chars' start_pos start_char) = None"
  using StandardAnalyzer_example [of positions' chars' start_pos start_char]
  by (simp add: StandardAnalyzer_call_def StandardAnalyzer_init_def RegexTokenizer_init_def
        PassFilter_id)

subsection \<open>The pattern matcher: where the matches lie\<close>

text \<open>
  A match consumes no more than the string holds, so the spans that \<open>finditer\<close> returns
  lie within the value; each starts where the one before it ended, or later.
\<close>

lemma rx_ends_le: "n \<in> set (rx_ends r s) \<Longrightarrow> n \<le> length s"
proof (induction r arbitrary: s n)
  case (One c)
  then show ?case by (cases s) (auto split: if_splits)
next
  case (Many c)
  have "length (takeWhile c s) \<le> length s" by (rule length_takeWhile_le)
  with Many show ?case by auto
next
  case (Seq a b)
  from Seq.prems obtain i j where i: "i \<in> set (rx_ends a s)"
    and j: "j \<in> set (rx_ends b (drop i s))" and n: "n = i + j"
    by auto
  from Seq.IH(1) [OF i] Seq.IH(2) [OF j] n show ?case by simp
next
  case (Alt a b)
  then show ?case by auto
qed

lemma rx_match_le: "rx_match r s = Some n \<Longrightarrow> n \<le> length s"
  by (rule rx_ends_le [of n r s]) (auto simp add: rx_match_def split: list.splits)

lemma finditer_from_bounds:
  "m \<in> set (finditer_from r off s) \<Longrightarrow> off \<le> fst m \<and> fst m \<le> snd m \<and> snd m \<le> off + length s"
proof (induction r off s arbitrary: m rule: finditer_from.induct)
  case (1 r off)
  show ?case
  proof (cases "rx_match r []")
    case None
    with 1 show ?thesis by simp
  next
    case (Some n)
    with rx_match_le [OF Some] 1 show ?thesis by simp
  qed
next
  case (2 r off x s)
  show ?case
  proof (cases "rx_match r (x # s)")
    case None
    with 2 show ?thesis by fastforce
  next
    case (Some n)
    have n: "n \<le> Suc (length s)" using rx_match_le [OF Some] by simp
    show ?thesis
    proof (cases "m = (off, off + n)")
      case True
      with n show ?thesis by simp
    next
      case False
      show ?thesis
      proof (cases "n = 0")
        case True
        with False Some "2.prems" have "m \<in> set (finditer_from r (Suc off) s)" by simp
        from "2.IH"(2) [OF Some True this] show ?thesis by simp
      next
        case n0: False
        with False Some "2.prems" have "m \<in> set (finditer_from r (off + n) (drop n (x # s)))"
          by simp
        from "2.IH"(3) [OF Some n0 this] n show ?thesis by simp
      qed
    qed
  qed
qed

lemma finditer_from_sorted:
  "sorted_wrt (\<lambda>a b. snd a \<le> fst b) (finditer_from r off s)"
proof (induction r off s rule: finditer_from.induct)
  case (1 r off)
  then show ?case by (simp split: option.splits)
next
  case (2 r off x s)
  show ?case
  proof (cases "rx_match r (x # s)")
    case None
    with 2 show ?thesis by simp
  next
    case (Some n)
    show ?thesis
    proof (cases "n = 0")
      case True
      have "\<forall>m \<in> set (finditer_from r (Suc off) s). off \<le> fst m"
        using finditer_from_bounds [of _ r "Suc off" s] by fastforce
      with "2.IH"(2) [OF Some True] Some True show ?thesis by simp
    next
      case False
      have "\<forall>m \<in> set (finditer_from r (off + n) (drop n (x # s))). off + n \<le> fst m"
        using finditer_from_bounds [of _ r "off + n" "drop n (x # s)"] by fastforce
      with "2.IH"(3) [OF Some False] Some False show ?thesis by simp
    qed
  qed
qed

subsection \<open>Spans of the pattern tokenizers\<close>

lemma spans_of_view:
  "map span ts = map Some sp \<Longrightarrow> List.map_filter span ts = sp \<and> list_all (\<lambda>u. span u \<noteq> None) ts"
proof (induction ts arbitrary: sp)
  case Nil
  then show ?case by simp
next
  case (Cons t ts)
  then obtain x xs where sp: "sp = x # xs" by (cases sp) auto
  with Cons.prems have "span t = Some x" "map span ts = map Some xs" by simp_all
  with Cons.IH [of xs] sp show ?case by simp
qed

lemma nonoverlapping_starts:
  "spans_within lo hi sp \<Longrightarrow> nonoverlapping sp \<Longrightarrow> starts_nondecreasing sp"
  unfolding spans_within_def nonoverlapping_def starts_nondecreasing_def
  by (induction sp) (auto simp add: list_all_iff)

lemma regex_spans:
  "map span (regex_matches conv v p True sp sc t (enumerate n ms)) =
   map Some (map (\<lambda>m. (sc + int (fst m), sc + int (snd m))) ms)"
  by (induction ms arbitrary: t n) (auto simp add: Let_def span_def)

lemma finditer_spans_within:
  "spans_within sc (sc + int (length v))
     (map (\<lambda>m. (sc + int (fst m), sc + int (snd m))) (finditer r v))"
  unfolding spans_within_def finditer_def list_all_iff
  using finditer_from_bounds [of _ r 0 v] by fastforce

lemma finditer_nonoverlapping:
  "nonoverlapping (map (\<lambda>m. (sc + int (fst m), sc + int (snd m))) (finditer r v))"
  unfolding nonoverlapping_def finditer_def sorted_wrt_map
  using finditer_from_sorted [of r 0 v] by simp

lemma regex_tokens_spans:
  "all_spanned (stream (regex_matches conv v p True sp sc t (enumerate 0 (finditer r v)))) \<and>
   spans (stream (regex_matches conv v p True sp sc t (enumerate 0 (finditer r v)))) =
     map (\<lambda>m. (sc + int (fst m), sc + int (snd m))) (finditer r v)"
  using spans_of_view [OF regex_spans [of conv v p sp sc t 0 "finditer r v"]]
  by (simp add: spans_def all_spanned_def)

subsection \<open>CamelFilter\<close>

text \<open>
  For a consumer that does not write to the token, the tokenizer that shares the token
  yields the trace of RegexTokenizer.
\<close>

lemma consume_regex_matches_shared:
  "consume (\<lambda>t. t) (regex_matches_shared conv v p c sp sc ims t) =
   stream (regex_matches conv v p c sp sc t ims)"
  by (induction ims arbitrary: t) (auto simp add: Let_def)

lemma RegexTokenizer_shared_unwritten:
  "consume (\<lambda>t. t)
     (RegexTokenizer_shared expression value' positions' chars' start_pos start_char) =
   RegexTokenizer_call expression value' positions' chars' start_pos start_char"
  by (simp add: RegexTokenizer_shared_def RegexTokenizer_call_def consume_regex_matches_shared)

text \<open>
  The same holds with LowerCaseFilter on top: the tokenizer assigns the text anew at
  each match, so what the filter wrote does not reach the next token.
\<close>

lemma regex_matches_text:
  "regex_matches conv v p c sp sc (t\<lparr>tok_text := x\<rparr>) ims = regex_matches conv v p c sp sc t ims"
  by (cases ims) (auto simp add: Let_def)

lemma consume_LowerCaseFilter_shared:
  "consume (\<lambda>t. t) (LowerCaseFilter_shared (regex_matches_shared conv v p c sp sc ims t)) =
   LowerCaseFilter (stream (regex_matches conv v p c sp sc t ims))"
proof (induction ims arbitrary: t)
  case Nil
  show ?case by simp
next
  case (Cons im ims)
  obtain i m where im: "im = (i, m)" by (cases im)
  define t1 where "t1 = t\<lparr>original := Some (conv (group0 v m)),
                 tok_text := Some (conv (group0 v m)), stopped := False\<rparr>"
  define t2 where "t2 = (if p then t1\<lparr>pos := Some (sp + int i)\<rparr> else t1)"
  define t3 where "t3 = (if c then t2\<lparr>startchar := Some (sc + int (fst m)),
                                   endchar := Some (sc + int (snd m))\<rparr> else t2)"
  have tx: "tok_text t3 = Some (conv (group0 v m))"
    by (simp add: t3_def t2_def t1_def)
  have sh: "regex_matches_shared conv v p c sp sc (im # ims) t =
      SYield t3 (regex_matches_shared conv v p c sp sc ims)"
    by (simp add: im Let_def t1_def t2_def t3_def)
  have tr: "regex_matches conv v p c sp sc t (im # ims) =
      t3 # regex_matches conv v p c sp sc t3 ims"
    by (simp add: im Let_def t1_def t2_def t3_def)
  show ?case
    unfolding sh tr
    by (simp add: tx Cons.IH regex_matches_text)
qed

lemma LowerCaseFilter_shared_unwritten:
  "consume (\<lambda>t. t)
     (LowerCaseFilter_shared
        (RegexTokenizer_shared expression value' positions' chars' start_pos start_char)) =
   LowerCaseFilter
     (RegexTokenizer_call expression value' positions' chars' start_pos start_char)"
  by (simp add: RegexTokenizer_shared_def RegexTokenizer_call_def consume_LowerCaseFilter_shared)

text \<open>
  When nothing writes to the token while the filter is suspended, the filter does what
  its docstring says: for a token with text \<open>w\<close> it yields the token, then, when \<open>w\<close> is
  non-empty and not \<open>islower()\<close>, \<open>isupper()\<close> or \<open>isdigit()\<close>, one token for each match
  of the camel pattern that differs from \<open>w\<close>, and then resumes the incoming generator
  with the token as the last yield left it.
\<close>

lemma camel_matches_unwritten_unset:
  "consume (\<lambda>t. t) (camel_matches w None ms rest t) =
   yield_all (map (\<lambda>m. t\<lparr>tok_text := Some (group0 w m)\<rparr>) (filter (\<lambda>m. group0 w m \<noteq> w) ms))
     (consume (\<lambda>t. t)
        (rest (last (t # map (\<lambda>m. t\<lparr>tok_text := Some (group0 w m)\<rparr>)
                             (filter (\<lambda>m. group0 w m \<noteq> w) ms)))))"
  by (induction ms arbitrary: t) (simp_all add: Let_def)

lemma camel_matches_unwritten_set:
  "consume (\<lambda>t. t) (camel_matches w (Some s) ms rest t) =
   yield_all (map (\<lambda>m. t\<lparr>tok_text := Some (group0 w m), startchar := Some (s + int (fst m)),
                           endchar := Some (s + int (snd m))\<rparr>)
                (filter (\<lambda>m. group0 w m \<noteq> w) ms))
     (consume (\<lambda>t. t)
        (rest (last (t # map (\<lambda>m. t\<lparr>tok_text := Some (group0 w m),
                                       startchar := Some (s + int (fst m)),
                                       endchar := Some (s + int (snd m))\<rparr>)
                             (filter (\<lambda>m. group0 w m \<noteq> w) ms)))))"
  by (induction ms arbitrary: t) (simp_all add: Let_def)

lemma CamelFilter_unwritten:
  assumes "tok_text t = Some w" and "chars t \<longrightarrow> startchar t = Some s"
    and "subs = (if w \<noteq> [] \<and> \<not> islower w \<and> \<not> isupper w \<and> \<not> isdigit w
                 then map (\<lambda>m. if chars t
                                then t\<lparr>tok_text := Some (group0 w m),
                                       startchar := Some (s + int (fst m)),
                                       endchar := Some (s + int (snd m))\<rparr>
                                else t\<lparr>tok_text := Some (group0 w m)\<rparr>)
                        (filter (\<lambda>m. group0 w m \<noteq> w) (finditer camel_exp w))
                 else [])"
  shows "consume (\<lambda>t. t) (CamelFilter (SYield t tokens)) =
           Yield t (yield_all subs (consume (\<lambda>t. t) (CamelFilter (tokens (last (t # subs))))))"
  using assms
  by (auto simp add: camel_matches_unwritten_unset camel_matches_unwritten_set)

text \<open>
  When the consumer is LowerCaseFilter, the filter is resumed with the lowercased text,
  and \<open>islower()\<close> holds of it as soon as the word has a letter: the word is not split.
\<close>

lemma lower_char_not_upper: "\<not> is_upper (lower_char c)"
  by (simp add: lower_char_def is_upper_def)

lemma lower_char_is_lower: "is_upper c \<or> is_lower c \<Longrightarrow> is_lower (lower_char c)"
  by (auto simp add: lower_char_def is_upper_def is_lower_def)

lemma islower_lower:
  "list_ex is_upper w \<or> list_ex is_lower w \<Longrightarrow> islower (lower w)"
  unfolding islower_def lower_def list_ex_iff
  using lower_char_not_upper lower_char_is_lower by auto

lemma LowerCaseFilter_after_CamelFilter:
  assumes "tok_text t = Some w" and "list_ex is_upper w \<or> list_ex is_lower w"
  shows "consume (\<lambda>t. t) (LowerCaseFilter_shared (CamelFilter (SYield t tokens))) =
           Yield (t\<lparr>tok_text := Some (lower w)\<rparr>)
             (consume (\<lambda>t. t)
                (LowerCaseFilter_shared
                   (CamelFilter (tokens (t\<lparr>tok_text := Some (lower w)\<rparr>)))))"
  using assms islower_lower [of w] by simp

text \<open>
  With CamelFilter as its own consumer the inner filter is resumed with the text of the
  last sub-word, \<open>Token\<close>, and adds nothing: four tokens in all.
\<close>

lemma CamelFilter_twice:
  "map tok_text (yields (consume (\<lambda>t. t)
      (CamelFilter (CamelFilter (RegexTokenizer_shared RegexTokenizer_default
         ''getProcessedToken'' False False 0 0))))) =
     [Some ''getProcessedToken'', Some ''get'', Some ''Processed'', Some ''Token'']"
  by code_simp

text \<open>
  C7 (the code departs from the claim). The claim, like the docstring of CamelFilter, has
  the filter yield \<open>getProcessedToken\<close> followed by \<open>get\<close>, \<open>Processed\<close>, \<open>Token\<close>.
  The code does so when its consumer leaves the token alone. It reads \<open>t.text\<close> only
  after it is resumed from \<open>yield t\<close>, though: in the chain
  \<open>LowerCaseFilter(CamelFilter(RegexTokenizer()("getProcessedToken")))\<close>, the order the
  docstring asks for and the one FancyAnalyzer builds, the text is \<open>getprocessedtoken\<close>
  by then, \<open>islower()\<close> holds, and the one token that comes out is the whole word,
  lowercased.
\<close>

theorem CamelFilter_before_LowerCaseFilter:
  "map tok_text (yields (consume (\<lambda>t. t)
      (CamelFilter (RegexTokenizer_shared RegexTokenizer_default ''getProcessedToken''
         False False 0 0)))) =
     [Some ''getProcessedToken'', Some ''get'', Some ''Processed'', Some ''Token''] \<and>
   consume (\<lambda>t. t)
      (LowerCaseFilter_shared
         (CamelFilter (RegexTokenizer_shared RegexTokenizer_default ''getProcessedToken''
            False False 0 0))) =
     Yield ((Token False False False)\<lparr>original := Some ''getProcessedToken'',
              tok_text := Some ''getprocessedtoken''\<rparr>) Done"
  by code_simp

subsection \<open>CommaSeparatedTokenizer\<close>

lemma length_strip_le: "length (strip s) \<le> length s"
  unfolding strip_def
  by (metis length_dropWhile_le length_rev le_trans)

lemma strip_shorter:
  assumes "s \<noteq> []" and "is_space (hd s) \<or> is_space (last s)"
  shows "length (strip s) < length s"
proof -
  from assms(2) show ?thesis
  proof
    assume h: "is_space (hd s)"
    from assms(1) obtain x xs where s: "s = x # xs" by (cases s) auto
    with h have "dropWhile is_space s = dropWhile is_space xs" by simp
    then have "length (strip s) \<le> length (dropWhile is_space xs)"
      unfolding strip_def by (metis length_dropWhile_le length_rev)
    also have "\<dots> \<le> length xs" by (rule length_dropWhile_le)
    finally show ?thesis using s by simp
  next
    assume l: "is_space (last s)"
    let ?d = "dropWhile is_space s"
    show ?thesis
    proof (cases "?d = []")
      case True
      have "strip s = []" unfolding strip_def True by simp
      with assms(1) show ?thesis by simp
    next
      case False
      have "s = takeWhile is_space s @ ?d" by simp
      then have "last s = last ?d" using False by (metis last_appendR)
      with l have sp: "is_space (last ?d)" by simp
      from False obtain y ys where r: "rev ?d = y # ys" by (cases "rev ?d") auto
      then have "y = last ?d" using False by (metis hd_rev list.sel(1))
      with sp have "dropWhile is_space (y # ys) = dropWhile is_space ys" by simp
      then have "dropWhile is_space (rev ?d) = dropWhile is_space ys" by (simp only: r)
      then have "length (strip s) = length (dropWhile is_space ys)"
        by (simp add: strip_def)
      also have "\<dots> \<le> length ys" by (rule length_dropWhile_le)
      also have "\<dots> < length (rev ?d)" using r by simp
      also have "\<dots> \<le> length s" by (simp add: length_dropWhile_le)
      finally show ?thesis .
    qed
  qed
qed

lemma regex_matches_view:
  "map (\<lambda>u. (tok_text u, span u)) (regex_matches conv v p True sp sc t (enumerate n ms)) =
   map (\<lambda>m. (Some (conv (group0 v m)), Some (sc + int (fst m), sc + int (snd m)))) ms"
  by (induction ms arbitrary: t n) (auto simp add: Let_def span_def)

lemma length_group0: "snd m \<le> length v \<Longrightarrow> length (group0 v m) = snd m - fst m"
  by (simp add: group0_def)

text \<open>
  C10. With char offsets active, the tokens of the comma-separated tokenizer are, match
  by match, the stripped text of the match together with the offsets of the whole,
  unstripped match. The match is \<open>endchar - startchar\<close> characters long and the text is
  never longer; when the match begins or ends with whitespace the text is strictly
  shorter than \<open>endchar - startchar\<close> and differs from \<open>value[startchar:endchar]\<close>.
\<close>

theorem CommaSeparatedTokenizer_strips:
  "map (\<lambda>u. (tok_text u, span u))
     (yields (CommaSeparatedTokenizer_call expression value' positions' True
        start_pos start_char)) =
   map (\<lambda>m. (Some (strip (group0 value' m)),
             Some (start_char + int (fst m), start_char + int (snd m))))
     (finditer expression value') \<and>
   (\<forall>m \<in> set (finditer expression value').
      length (group0 value' m) = snd m - fst m \<and>
      length (strip (group0 value' m)) \<le> snd m - fst m \<and>
      (group0 value' m \<noteq> [] \<and>
       (is_space (hd (group0 value' m)) \<or> is_space (last (group0 value' m))) \<longrightarrow>
         length (strip (group0 value' m)) < snd m - fst m \<and>
         strip (group0 value' m) \<noteq> group0 value' m))"
proof (intro conjI ballI)
  show "map (\<lambda>u. (tok_text u, span u))
     (yields (CommaSeparatedTokenizer_call expression value' positions' True
        start_pos start_char)) =
   map (\<lambda>m. (Some (strip (group0 value' m)),
             Some (start_char + int (fst m), start_char + int (snd m))))
     (finditer expression value')"
    by (simp add: CommaSeparatedTokenizer_call_def regex_matches_view)
next
  fix m assume m: "m \<in> set (finditer expression value')"
  then have "snd m \<le> length value'"
    using finditer_from_bounds [of m expression 0 value'] by (simp add: finditer_def)
  then show len: "length (group0 value' m) = snd m - fst m" by (rule length_group0)
  show "length (strip (group0 value' m)) \<le> snd m - fst m"
    using length_strip_le [of "group0 value' m"] len by simp
  show "group0 value' m \<noteq> [] \<and>
       (is_space (hd (group0 value' m)) \<or> is_space (last (group0 value' m))) \<longrightarrow>
         length (strip (group0 value' m)) < snd m - fst m \<and>
         strip (group0 value' m) \<noteq> group0 value' m"
    using strip_shorter [of "group0 value' m"] len by auto
qed

text \<open>
  On \<open>"a , b"\<close> the matches are \<open>"a "\<close> at \<open>(0, 2)\<close> and \<open>" b"\<close> at \<open>(3, 5)\<close>; the
  texts are \<open>"a"\<close> and \<open>"b"\<close>, one character for a span of two.
\<close>

theorem CommaSeparatedTokenizer_strips_witness:
  "map (\<lambda>u. (tok_text u, span u))
     (yields (CommaSeparatedTokenizer_call CommaSeparatedTokenizer_default ''a , b''
        False True 0 0)) =
   [(Some ''a'', Some (0, 2)), (Some ''b'', Some (3, 5))] \<and>
   (0, 2) \<in> set (finditer CommaSeparatedTokenizer_default ''a , b'') \<and>
   group0 ''a , b'' (0, 2) = ''a '' \<and> is_space (last ''a '') \<and>
   length (strip (group0 ''a , b'' (0, 2))) < 2 - 0 \<and>
   strip (group0 ''a , b'' (0, 2)) \<noteq> group0 ''a , b'' (0, 2)"
proof -
  have fi: "finditer CommaSeparatedTokenizer_default ''a , b'' = [(0, 2), (3, 5)]"
    by code_simp
  have g: "group0 ''a , b'' (0, 2) = ''a ''" "group0 ''a , b'' (3, 5) = '' b''"
    by code_simp+
  have sp: "is_space (CHR '' '')" by code_simp
  have st: "strip ''a '' = ''a''" "strip '' b'' = ''b''" by code_simp+
  show ?thesis
    using CommaSeparatedTokenizer_strips [of CommaSeparatedTokenizer_default "''a , b''"
        False 0 0]
    by (simp add: fi g sp st)
qed

subsection \<open>Spans of NgramTokenizer and IDTokenizer\<close>

lemma ngram_sizes_spans:
  "map span (fst (ngram_sizes inlen p True ps sc st t sizes)) =
   map Some (map (\<lambda>sz. (sc + st, sc + (st + sz))) (filter (\<lambda>sz. st + sz \<le> inlen) sizes))"
  by (induction sizes arbitrary: t) (auto simp add: Let_def span_def)

lemma ngram_starts_spans:
  "map span (ngram_starts self inlen p True ps sc t starts) = map Some (grams self inlen sc starts)"
  by (induction starts arbitrary: t ps) (simp_all add: Let_def ngram_sizes_spans)

lemma grams_within:
  assumes "0 \<le> nmin self" and "\<forall>st \<in> set starts. 0 \<le> st"
  shows "spans_within sc (sc + inlen) (grams self inlen sc starts)"
  using assms unfolding spans_within_def list_all_iff xrange_def
  by auto

lemma grams_starts:
  "fst ` set (grams self inlen sc starts) \<subseteq> (\<lambda>st. sc + st) ` set starts"
  by auto

lemma grams_sorted:
  "sorted starts \<Longrightarrow> starts_nondecreasing (grams self inlen sc starts)"
proof (induction starts)
  case Nil
  show ?case by (simp add: starts_nondecreasing_def)
next
  case (Cons st starts)
  have split: "grams self inlen sc (st # starts) = grams self inlen sc [st] @ grams self inlen sc starts"
    by simp
  have one: "\<forall>x \<in> set (grams self inlen sc [st]). fst x = sc + st"
    by auto
  then have "map fst (grams self inlen sc [st]) = map (\<lambda>_. sc + st) (grams self inlen sc [st])"
    by simp
  then have s1: "sorted (map fst (grams self inlen sc [st]))"
    by (simp add: map_replicate_const)
  have rest: "\<forall>y \<in> set (grams self inlen sc starts). sc + st \<le> fst y"
    using grams_starts [where self = self and inlen = inlen and sc = sc and starts = starts]
      Cons.prems by fastforce
  from Cons have s2: "sorted (map fst (grams self inlen sc starts))"
    by (simp add: starts_nondecreasing_def)
  show ?case
    unfolding starts_nondecreasing_def split
    using s1 s2 one rest by (auto simp add: sorted_append)
qed

lemma IDTokenizer_spans:
  "all_spanned (IDTokenizer v p True sp sc) \<and>
   spans (IDTokenizer v p True sp sc) = [(sc, sc + int (length v))]"
  by (simp add: IDTokenizer_def all_spanned_def spans_def Let_def span_def Token_def)

lemma NgramTokenizer_spans:
  "all_spanned (NgramTokenizer_call self v p True sp sc) \<and>
   spans (NgramTokenizer_call self v p True sp sc) =
     grams self (int (length v)) sc (xrange 0 (int (length v) - nmin self))"
  using spans_of_view [OF ngram_starts_spans [of self "int (length v)" p sp sc
      "Token p True False" "xrange 0 (int (length v) - nmin self)"]]
  by (simp add: NgramTokenizer_call_def spans_def all_spanned_def Let_def)

text \<open>
  C5, as stated, fails for the n-gram tokenizer: the grams of one start offset overlap
  each other and those of the next offset. \<open>NgramTokenizer(3, 4)("hello")\<close> yields the
  spans \<open>(0, 3)\<close>, \<open>(0, 4)\<close>, \<open>(1, 4)\<close>, \<open>(1, 5)\<close>. With negative sizes the spans are
  not even substrings: \<open>NgramTokenizer(-2, -1)("hello")\<close> starts with the span
  \<open>(0, -2)\<close>.
\<close>

theorem tokenizer_spans_counterexample:
  "\<not> nonoverlapping (spans (NgramTokenizer_call \<lparr>nmin = 3, nmax = 4\<rparr> ''hello'' False True 0 0)) \<and>
   \<not> spans_within 0 5 (spans (NgramTokenizer_call \<lparr>nmin = - 2, nmax = - 1\<rparr> ''hello'' False True 0 0))"
  by code_simp

text \<open>
  C5, amended. With char offsets active, every token of the identity tokenizer, of a
  pattern tokenizer (RegexTokenizer and SpaceSeparatedTokenizer, whatever the
  expression) and of the comma-separated tokenizer has a span, the spans are substrings
  of the input (shifted by \<open>start_char\<close>), their starts are non-decreasing and they do
  not overlap. Every token of the n-gram tokenizer with a non-negative minimum size has
  a span, the spans are substrings of the input and their starts are non-decreasing;
  they overlap.
\<close>

theorem tokenizer_spans:
  "(let g = IDTokenizer value' positions' True start_pos start_char in
      all_spanned g \<and> spans_within start_char (start_char + int (length value')) (spans g) \<and>
      starts_nondecreasing (spans g) \<and> nonoverlapping (spans g)) \<and>
   (let g = RegexTokenizer_call expression value' positions' True start_pos start_char in
      all_spanned g \<and> spans_within start_char (start_char + int (length value')) (spans g) \<and>
      starts_nondecreasing (spans g) \<and> nonoverlapping (spans g)) \<and>
   (let g = CommaSeparatedTokenizer_call expression value' positions' True start_pos start_char in
      all_spanned g \<and> spans_within start_char (start_char + int (length value')) (spans g) \<and>
      starts_nondecreasing (spans g) \<and> nonoverlapping (spans g)) \<and>
   (0 \<le> nmin self \<longrightarrow>
     (let g = NgramTokenizer_call self value' positions' True start_pos start_char in
      all_spanned g \<and> spans_within start_char (start_char + int (length value')) (spans g) \<and>
      starts_nondecreasing (spans g)))"
proof (intro conjI impI)
  show "let g = IDTokenizer value' positions' True start_pos start_char in
      all_spanned g \<and> spans_within start_char (start_char + int (length value')) (spans g) \<and>
      starts_nondecreasing (spans g) \<and> nonoverlapping (spans g)"
    by (simp add: IDTokenizer_spans spans_within_def starts_nondecreasing_def
          nonoverlapping_def)
next
  let ?sp = "map (\<lambda>m. (start_char + int (fst m), start_char + int (snd m)))
               (finditer expression value')"
  have w: "spans_within start_char (start_char + int (length value')) ?sp"
    by (rule finditer_spans_within)
  have n: "nonoverlapping ?sp" by (rule finditer_nonoverlapping)
  have s: "starts_nondecreasing ?sp" by (rule nonoverlapping_starts [OF w n])
  show "let g = RegexTokenizer_call expression value' positions' True start_pos start_char in
      all_spanned g \<and> spans_within start_char (start_char + int (length value')) (spans g) \<and>
      starts_nondecreasing (spans g) \<and> nonoverlapping (spans g)"
    unfolding RegexTokenizer_call_def Let_def using w n s by (simp add: regex_tokens_spans)
  show "let g = CommaSeparatedTokenizer_call expression value' positions' True start_pos start_char in
      all_spanned g \<and> spans_within start_char (start_char + int (length value')) (spans g) \<and>
      starts_nondecreasing (spans g) \<and> nonoverlapping (spans g)"
    unfolding CommaSeparatedTokenizer_call_def Let_def using w n s
    by (simp add: regex_tokens_spans)
next
  assume m: "0 \<le> nmin self"
  let ?starts = "xrange 0 (int (length value') - nmin self)"
  have pos: "\<forall>st \<in> set ?starts. 0 \<le> st" by (simp add: xrange_def)
  have srt: "sorted ?starts" by (simp add: xrange_def)
  show "let g = NgramTokenizer_call self value' positions' True start_pos start_char in
      all_spanned g \<and> spans_within start_char (start_char + int (length value')) (spans g) \<and>
      starts_nondecreasing (spans g)"
    unfolding Let_def
    using grams_within [OF m pos, where sc = start_char and inlen = "int (length value')"]
      grams_sorted [OF srt, where self = self and inlen = "int (length value')"
        and sc = start_char]
    by (simp add: NgramTokenizer_spans)
qed

theorem tokenizer_spans_witness:
  "0 \<le> nmin \<lparr>nmin = 3, nmax = 4\<rparr> \<and>
   spans (NgramTokenizer_call \<lparr>nmin = 3, nmax = 4\<rparr> ''The fox'' False True 0 0) =
     [(0, 3), (0, 4), (1, 4), (1, 5), (2, 5), (2, 6), (3, 6), (3, 7)] \<and>
   spans_within 0 7 [(0, 3), (0, 4), (1, 4), (1, 5), (2, 5), (2, 6), (3, 6), (3, 7)] \<and>
   starts_nondecreasing [(0, 3), (0, 4), (1, 4), (1, 5), (2, 5), (2, 6), (3, 6), (3, 7)] \<and>
   spans (RegexTokenizer_call RegexTokenizer_default ''The fox'' False True 0 0) = [(0, 3), (4, 7)] \<and>
   spans_within 0 7 [(0, 3), (4, 7)] \<and> nonoverlapping [(0, 3), (4, 7)] \<and>
   spans (IDTokenizer ''The fox'' False True 0 0) = [(0, 7)]"
proof -
  have a: "spans (NgramTokenizer_call \<lparr>nmin = 3, nmax = 4\<rparr> ''The fox'' False True 0 0) =
     [(0, 3), (0, 4), (1, 4), (1, 5), (2, 5), (2, 6), (3, 6), (3, 7)]"
    by code_simp
  have b: "spans (RegexTokenizer_call RegexTokenizer_default ''The fox'' False True 0 0) =
     [(0, 3), (4, 7)]"
    by code_simp
  have c: "spans (IDTokenizer ''The fox'' False True 0 0) = [(0, 7)]"
    by code_simp
  show ?thesis
    using tokenizer_spans [where value' = "''The fox''" and positions' = False
        and start_pos = 0 and start_char = 0 and expression = RegexTokenizer_default
        and self = "\<lparr>nmin = 3, nmax = 4\<rparr>"]
    by (simp add: a b c Let_def)
qed

end
